theory Spec2Isabelle
  imports Main "HOL-Library.Word"
begin

unbundle bit_operations_syntax

section \<open>The Kilobot controller: ci\_kilobot\_controller.cpp\<close>

text \<open>
  The controller publishes sensor values in a record shared with a behaviour process,
  resumes that process with SIGCONT, waits for it with waitpid, and reads the actuator
  values back. The model follows the four lifecycle functions of the source file:
  \<open>Init\<close>, \<open>ControlStep\<close>, \<open>Reset\<close> and \<open>Destroy\<close>.
\<close>

subsection \<open>The State Record\<close>

type_synonym u8 = "8 word"

text \<open>
  Modelled from the spec: \<open>kilobot_state_t\<close> comes with the header
  ci\_kilobot\_controller.h, which is not among the sources. The fields are those the
  source file and section 3 of the specification name. The payload types
  \<open>message_t\<close> and \<open>distance_measurement_t\<close> are the type parameters
  \<open>'m\<close> and \<open>'d\<close>; their value \<open>0\<close> is the payload whose bytes
  are all zero. \<open>rx_state\<close> is a byte, as \<open>Min<UInt8>\<close> in ControlStep
  computes it. The two arrays have \<open>KILOBOT_MAX_RX\<close> entries; that constant is a
  parameter \<open>max_rx\<close> of the functions that need it.
\<close>

record ('m, 'd) kilobot_state =
  ambientlight :: int
  rx_state :: u8
  rx_message :: "'m list"
  rx_distance :: "'d list"
  tx_state :: u8
  tx_message :: 'm
  left_motor :: u8
  right_motor :: u8
  color :: u8
  voltage :: int
  temperature :: int

text \<open>\<open>memset(m_ptRobotState, 0, sizeof(kilobot_state_t))\<close>: every byte of the
  record becomes zero, in place; the arrays keep their extent.\<close>

definition memset_zero :: "('m::zero, 'd::zero) kilobot_state \<Rightarrow> ('m, 'd) kilobot_state" where
  "memset_zero s =
     \<lparr>ambientlight = 0,
      rx_state = 0,
      rx_message = replicate (length (rx_message s)) 0,
      rx_distance = replicate (length (rx_distance s)) 0,
      tx_state = 0,
      tx_message = 0,
      left_motor = 0,
      right_motor = 0,
      color = 0,
      voltage = 0,
      temperature = 0\<rparr>"

text \<open>A record in which every field is zero.\<close>

definition all_zero :: "('m::zero, 'd::zero) kilobot_state \<Rightarrow> bool" where
  "all_zero s =
     (ambientlight s = 0 \<and> rx_state s = 0 \<and>
      list_all (\<lambda>m. m = 0) (rx_message s) \<and>
      list_all (\<lambda>d. d = 0) (rx_distance s) \<and>
      tx_state s = 0 \<and> tx_message s = 0 \<and>
      left_motor s = 0 \<and> right_motor s = 0 \<and> color s = 0 \<and>
      voltage s = 0 \<and> temperature s = 0)"

subsection \<open>Processes, signals and waiting\<close>

datatype signal = SIGTERM | SIGCONT

text \<open>
  The behaviour process as the operating system sees it. The flag of \<open>Running\<close> and
  \<open>Stopped\<close> says that a SIGTERM is pending. \<open>Zombie\<close> has exited and was not
  waited for; \<open>NoChild\<close> was waited for (or never existed).
\<close>

datatype proc = Running bool | Stopped bool | Zombie | NoChild

text \<open>\<open>kill(pid, sig)\<close> on the child: SIGCONT makes a stopped child runnable; SIGTERM
  stays pending until the child runs. A child that has exited is not affected.\<close>

fun kill :: "signal \<Rightarrow> proc \<Rightarrow> proc" where
  "kill SIGCONT (Stopped tp) = Running tp"
| "kill SIGCONT p = p"
| "kill SIGTERM (Stopped tp) = Stopped True"
| "kill SIGTERM (Running tp) = Running True"
| "kill SIGTERM p = p"

text \<open>
  The flags and the macro of the platform's wait.h, with the values they have on
  Linux: WNOHANG is 1, WUNTRACED is 2, and \<open>WIFEXITED(status)\<close> is
  \<open>(status & 0x7f) == 0\<close>.
\<close>

definition WNOHANG :: int where
  "WNOHANG = 1"

definition WUNTRACED :: int where
  "WUNTRACED = 2"

definition WIFEXITED :: "int \<Rightarrow> int" where
  "WIFEXITED status = (if status AND 127 = 0 then 1 else 0)"

text \<open>What the behaviour process does with the record when it runs for one tick, and
  how the tick ends: it stops itself, it exits, or it does neither.\<close>

datatype tick_end = Suspends | Exits | Hangs

text \<open>What a call of waitpid tells its caller: nothing yet (WNOHANG), the child
  stopped, the child exited (or was terminated by a signal), or there is no child to
  wait for.\<close>

datatype wait_result = WNothing | WStopped | WExited | WNoChild

text \<open>
  \<open>waitpid(pid, status, options)\<close>. The result \<open>None\<close> is a call that never
  returns. While the caller is blocked a runnable child runs: with a SIGTERM pending it
  terminates and leaves the record alone, otherwise it runs its tick \<open>beh\<close> on the
  record and ends as \<open>fin\<close> says. With WNOHANG the call returns at once and the
  child has not run yet.
\<close>

definition waitpid ::
  "int \<Rightarrow> ('s \<Rightarrow> 's) \<Rightarrow> tick_end \<Rightarrow> proc \<Rightarrow> 's \<Rightarrow> (wait_result \<times> proc \<times> 's) option" where
  "waitpid options beh fin p s =
     (case p of
        NoChild \<Rightarrow> Some (WNoChild, NoChild, s)
      | Zombie \<Rightarrow> Some (WExited, NoChild, s)
      | Stopped tp \<Rightarrow>
          if options AND WNOHANG \<noteq> 0 then Some (WNothing, Stopped tp, s) else None
      | Running tp \<Rightarrow>
          if options AND WNOHANG \<noteq> 0 then Some (WNothing, Running tp, s)
          else if tp then Some (WExited, NoChild, s)
          else (case fin of
                  Exits \<Rightarrow> Some (WExited, NoChild, beh s)
                | Suspends \<Rightarrow>
                    if options AND WUNTRACED \<noteq> 0 then Some (WStopped, Stopped False, beh s)
                    else None
                | Hangs \<Rightarrow> None))"

subsection \<open>What the controller does to the outside\<close>

text \<open>The fields of the State Record, to name the one a load or store touches.\<close>

datatype field =
    Ambientlight | RxState | RxMessage nat | RxDistance nat | TxState | TxMessage
  | LeftMotor | RightMotor | Color

text \<open>
  The name of the shared memory object, \<open>"/" + ToString(getpid()) + "_" + GetId()\<close>,
  kept as its two parts.
\<close>

datatype shm_name = ShmName int string

text \<open>
  One event for each system call, each call of an actuator and each access to a field
  of the State Record, in program order. \<open>EvSetLinearVelocity\<close> and
  \<open>EvSetSingleColor\<close> carry the bytes read from the record: the scaling to
  floating point (\<open>3.0 * x / 255.0\<close>) and the macros RED, GREEN and BLUE of the
  missing header are not part of the model.
\<close>

datatype 'm event =
    EvOpen string
  | EvClose int
  | EvShmOpen shm_name
  | EvFtruncate int
  | EvMmap int
  | EvMemset
  | EvFork
  | EvExecl string int string nat nat
  | EvKill int signal
  | EvWaitpid int int
  | EvMunmap
  | EvShmUnlink shm_name
  | EvStore field
  | EvLoad field
  | EvSetLinearVelocity u8 u8
  | EvSetSingleColor u8
  | EvSetMessage 'm

subsection \<open>The controller object\<close>

text \<open>The members of \<open>CCI_KilobotController\<close>. A device pointer is modelled by
  whether it is non-NULL; \<open>m_ptRobotState\<close> by the record it points to;
  \<open>robot_id\<close> is what \<open>GetId()\<close> returns.\<close>

record ('m, 'd) controller =
  m_ptRobotState :: "('m, 'd) kilobot_state"
  m_pcMotors :: bool
  m_pcLED :: bool
  m_pcLight :: bool
  m_pcCommA :: bool
  m_pcCommS :: bool
  m_nSharedMemFD :: int
  m_tBehaviorPID :: int
  robot_id :: string

text \<open>What one tick brings from outside: the readings of the sensors, and what the
  behaviour process does with the record when it is resumed.\<close>

record ('m, 'd) tick =
  light_reading :: int
  packets :: "('m \<times> 'd) list"
  message_sent :: bool
  behavior :: "('m, 'd) kilobot_state \<Rightarrow> ('m, 'd) kilobot_state"
  tick_end :: tick_end

subsection \<open>ControlStep\<close>

text \<open>\<open>Min<UInt8>(GetPackets().size(), KILOBOT_MAX_RX)\<close>: both arguments are
  converted to \<open>UInt8\<close> before they are compared.\<close>

definition Min_UInt8 :: "nat \<Rightarrow> nat \<Rightarrow> u8" where
  "Min_UInt8 a b = (if (of_nat a :: u8) < of_nat b then of_nat a else of_nat b)"

text \<open>The loop of lines 110 to 117: \<open>i\<close> runs up to \<open>rx_state\<close>, read from
  the record at each test, and packet \<open>i\<close> is copied into entry \<open>i\<close> of both
  arrays.\<close>

function rx_loop ::
  "nat \<Rightarrow> ('m \<times> 'd) list \<Rightarrow> ('m, 'd) kilobot_state \<times> 'm event list
     \<Rightarrow> ('m, 'd) kilobot_state \<times> 'm event list" where
  "rx_loop i ps (s, evs) =
     (if i < unat (rx_state s)
      then rx_loop (Suc i) ps
             (s\<lparr>rx_message := (rx_message s)[i := fst (ps ! i)],
                rx_distance := (rx_distance s)[i := snd (ps ! i)]\<rparr>,
              evs @ [EvLoad RxState, EvStore (RxMessage i), EvStore (RxDistance i)])
      else (s, evs @ [EvLoad RxState]))"
  by pat_completeness auto
termination
  by (relation "measure (\<lambda>(i, ps, s, evs). unat (rx_state s) - i)") auto

text \<open>Lines 103 to 123: the sensor values are written into the record.\<close>

definition write_sensors ::
  "nat \<Rightarrow> ('m, 'd) tick \<Rightarrow> ('m, 'd) controller \<Rightarrow> ('m, 'd) kilobot_state \<times> 'm event list" where
  "write_sensors max_rx t c =
     (let (s1, e1) =
            (if m_pcLight c
             then ((m_ptRobotState c)\<lparr>ambientlight := light_reading t\<rparr>, [EvStore Ambientlight])
             else (m_ptRobotState c, []))
      in if m_pcCommS c
         then (let (s2, e2) =
                     (if packets t \<noteq> []
                      then rx_loop 0 (packets t)
                             (s1\<lparr>rx_state := Min_UInt8 (length (packets t)) max_rx\<rparr>,
                              e1 @ [EvStore RxState])
                      else (s1, e1))
               in if message_sent t
                  then (s2\<lparr>tx_state := 2\<rparr>, e2 @ [EvStore TxState])
                  else (s2, e2))
         else (s1, e1))"

text \<open>Lines 130 to 144: the actuator values are read from the record.\<close>

definition read_actuators ::
  "('m, 'd) controller \<Rightarrow> ('m, 'd) kilobot_state \<Rightarrow> 'm event list" where
  "read_actuators c s =
     (if m_pcMotors c
      then [EvLoad RightMotor, EvLoad LeftMotor,
            EvSetLinearVelocity (right_motor s) (left_motor s)]
      else []) @
     (if m_pcLED c
      then [EvLoad Color, EvLoad Color, EvLoad Color, EvSetSingleColor (color s)]
      else []) @
     (if m_pcCommA c
      then EvLoad TxState # (if tx_state s = 1 then [EvSetMessage (tx_message s)] else [])
      else [])"

text \<open>
  \<open>ControlStep\<close>, on the controller and the child process. The result of
  \<open>waitpid\<close> is dropped, as in the source: the status pointer is NULL and the
  return value is not looked at. \<open>None\<close> is a call that never returns.
\<close>

definition ControlStep ::
  "nat \<Rightarrow> ('m, 'd) tick \<Rightarrow> ('m, 'd) controller \<Rightarrow> proc
     \<Rightarrow> (('m, 'd) controller \<times> proc \<times> 'm event list) option" where
  "ControlStep max_rx t c p =
     (let (s, pre) = write_sensors max_rx t c;
          p1 = kill SIGCONT p
      in case waitpid WUNTRACED (behavior t) (tick_end t) p1 s of
           None \<Rightarrow> None
         | Some (r, p2, s') \<Rightarrow>
             Some (c\<lparr>m_ptRobotState := s'\<rparr>, p2,
                   pre @ [EvKill (m_tBehaviorPID c) SIGCONT,
                          EvWaitpid (m_tBehaviorPID c) WUNTRACED]
                       @ read_actuators c s'))"

text \<open>The simulation framework calls \<open>ControlStep\<close> once per tick; the events
  of each call are kept apart.\<close>

fun ControlSteps ::
  "nat \<Rightarrow> ('m, 'd) tick list \<Rightarrow> ('m, 'd) controller \<Rightarrow> proc
     \<Rightarrow> (('m, 'd) controller \<times> proc \<times> 'm event list list) option" where
  "ControlSteps max_rx [] c p = Some (c, p, [])"
| "ControlSteps max_rx (t # ts) c p =
     (case ControlStep max_rx t c p of
        None \<Rightarrow> None
      | Some (c1, p1, evs) \<Rightarrow>
          (case ControlSteps max_rx ts c1 p1 of
             None \<Rightarrow> None
           | Some (c2, p2, evss) \<Rightarrow> Some (c2, p2, evs # evss)))"

subsection \<open>Init\<close>

text \<open>
  What \<open>Init\<close> finds outside the controller: which devices the robot has
  (\<open>GetActuator\<close> and \<open>GetSensor\<close> throw for a missing one, and \<open>Init\<close>
  swallows that), the attribute \<open>behavior\<close> of the configuration node, the
  robot's id, and what each system call returns, with the \<open>errno\<close> it leaves when
  it fails. \<open>os_region\<close> is what the mapped region holds before it is zeroed.
\<close>

record ('m, 'd) init_env =
  has_differential_steering :: bool
  has_leds :: bool
  has_communication_actuator :: bool
  has_communication_sensor :: bool
  has_light :: bool
  cfg_behavior :: "string option"
  cfg_id :: string
  os_open :: int
  os_open_errno :: int
  os_getpid :: int
  os_shm_open :: int
  os_shm_open_errno :: int
  os_ftruncate :: int
  os_ftruncate_errno :: int
  os_mmap_failed :: bool
  os_mmap_errno :: int
  os_region :: "('m, 'd) kilobot_state"
  os_fork :: int
  os_fork_errno :: int
  os_execl_errno :: "int option"
  clock_tick_ms :: nat
  rng_seed :: nat

text \<open>The exceptions of \<open>Init\<close>, one constructor for each
  \<open>THROW_ARGOSEXCEPTION\<close>, with the \<open>errno\<close> whose \<open>strerror\<close> the message
  ends with; \<open>AttributeNotFound\<close> is the exception of \<open>GetNodeAttribute\<close>.
  The handler at the end of \<open>Init\<close> nests each of them in
  \<open>ErrorInitializing\<close> with the robot's id.\<close>

datatype init_error =
    AttributeNotFound
  | OpeningBehaviorFile string int
  | CreatingSharedMemory string int
  | MmappingSharedMemory string int
  | ForkingBehavior string int
  | ExecutingBehavior string string int

datatype error = ErrorInitializing string init_error

text \<open>How \<open>Init\<close> ends: it returns, in the simulator's process, with the controller
  set up and the new child runnable; it throws; or, in the forked child, \<open>execl\<close>
  replaces the process image and nothing returns.\<close>

datatype ('m, 'd) init_result =
    Initialized "('m, 'd) controller" proc
  | Thrown error
  | ImageReplaced

definition Init :: "('m::zero, 'd::zero) init_env \<Rightarrow> ('m, 'd) init_result \<times> 'm event list" where
  "Init env =
     (case cfg_behavior env of
        None \<Rightarrow> (Thrown (ErrorInitializing (cfg_id env) AttributeNotFound), [])
      | Some strBehavior \<Rightarrow>
          let ev_open = [EvOpen strBehavior] in
          if os_open env < 0
          then (Thrown (ErrorInitializing (cfg_id env)
                          (OpeningBehaviorFile strBehavior (os_open_errno env))),
                ev_open)
          else
          let name = ShmName (os_getpid env) (cfg_id env);
              ev_shm = ev_open @ [EvClose (os_open env), EvShmOpen name] in
          if os_shm_open env < 0
          then (Thrown (ErrorInitializing (cfg_id env)
                          (CreatingSharedMemory (cfg_id env) (os_shm_open_errno env))),
                ev_shm)
          else
          let ev_map = ev_shm @ [EvFtruncate (os_shm_open env), EvMmap (os_shm_open env)] in
          if os_mmap_failed env
          then (Thrown (ErrorInitializing (cfg_id env)
                          (MmappingSharedMemory (cfg_id env) (os_mmap_errno env))),
                ev_map)
          else
          let ev_fork = ev_map @ [EvMemset, EvFork] in
          if os_fork env < 0
          then (Thrown (ErrorInitializing (cfg_id env)
                          (ForkingBehavior (cfg_id env) (os_fork_errno env))),
                ev_fork)
          else
          if os_fork env = 0
          then (let ev_exec = ev_fork @ [EvExecl strBehavior (os_getpid env) (cfg_id env)
                                           (clock_tick_ms env) (rng_seed env)]
                in case os_execl_errno env of
                     None \<Rightarrow> (ImageReplaced, ev_exec)
                   | Some e \<Rightarrow>
                       (Thrown (ErrorInitializing (cfg_id env)
                                  (ExecutingBehavior (cfg_id env) strBehavior e)),
                        ev_exec))
          else (Initialized
                  \<lparr>m_ptRobotState = memset_zero (os_region env),
                   m_pcMotors = has_differential_steering env,
                   m_pcLED = has_leds env,
                   m_pcLight = has_light env,
                   m_pcCommA = has_communication_actuator env,
                   m_pcCommS = has_communication_sensor env,
                   m_nSharedMemFD = os_shm_open env,
                   m_tBehaviorPID = os_fork env,
                   robot_id = cfg_id env\<rparr>
                  (Running False),
                ev_fork))"

subsection \<open>Reset and Destroy\<close>

definition Reset :: "('m::zero, 'd::zero) controller \<Rightarrow> ('m, 'd) controller" where
  "Reset c = c\<lparr>m_ptRobotState := memset_zero (m_ptRobotState c)\<rparr>"

text \<open>
  \<open>Destroy\<close>. The local \<open>nStatus\<close> is read before anything is stored in it, so
  its value is a parameter; \<open>ppid\<close> is what \<open>getpid()\<close> returns. The child that
  is waited for has a SIGTERM pending whenever it can run, so what its tick would do
  plays no part: \<open>waitpid\<close> gets the identity and \<open>Exits\<close>.
\<close>

definition Destroy ::
  "int \<Rightarrow> int \<Rightarrow> ('m, 'd) controller \<Rightarrow> proc
     \<Rightarrow> (('m, 'd) controller \<times> proc \<times> 'm event list) option" where
  "Destroy nStatus ppid c p =
     (let p1 = kill SIGTERM p;
          p2 = kill SIGCONT p1
      in case waitpid (WIFEXITED nStatus) (\<lambda>s. s) Exits p2 (m_ptRobotState c) of
           None \<Rightarrow> None
         | Some (r, p3, s') \<Rightarrow>
             Some (c\<lparr>m_ptRobotState := s'\<rparr>, p3,
                   [EvKill (m_tBehaviorPID c) SIGTERM,
                    EvKill (m_tBehaviorPID c) SIGCONT,
                    EvWaitpid (m_tBehaviorPID c) (WIFEXITED nStatus),
                    EvMunmap,
                    EvClose (m_nSharedMemFD c),
                    EvShmUnlink (ShmName ppid (robot_id c))]))"

subsection \<open>Notions the properties are stated with\<close>

text \<open>The fields that only the behaviour process writes.\<close>

definition outputs :: "('m, 'd) kilobot_state \<Rightarrow> u8 \<times> u8 \<times> u8 \<times> 'm" where
  "outputs s = (left_motor s, right_motor s, color s, tx_message s)"

text \<open>The inbox: the count of received packets and the two arrays.\<close>

definition inbox :: "('m, 'd) kilobot_state \<Rightarrow> u8 \<times> 'm list \<times> 'd list" where
  "inbox s = (rx_state s, rx_message s, rx_distance s)"

text \<open>The child runs during the wait of \<open>ControlStep\<close> when, after the SIGCONT, it
  is runnable with no SIGTERM pending.\<close>

definition child_runs :: "proc \<Rightarrow> bool" where
  "child_runs p = (kill SIGCONT p = Running False)"

text \<open>The accesses that publish sensor values: a store into one of the fields the
  simulator writes, or the loop's read of \<open>rx_state\<close>.\<close>

fun sensor_access :: "'m event \<Rightarrow> bool" where
  "sensor_access (EvStore f) =
     (f \<noteq> TxMessage \<and> f \<noteq> LeftMotor \<and> f \<noteq> RightMotor \<and> f \<noteq> Color)"
| "sensor_access (EvLoad f) = (f = RxState)"
| "sensor_access _ = False"

text \<open>The accesses that read actuator values back: a load of a field the behaviour
  process writes, or a call of an actuator.\<close>

fun actuator_access :: "'m event \<Rightarrow> bool" where
  "actuator_access (EvLoad f) = (f = RightMotor \<or> f = LeftMotor \<or> f = Color \<or> f = TxState)"
| "actuator_access (EvSetLinearVelocity r l) = True"
| "actuator_access (EvSetSingleColor k) = True"
| "actuator_access (EvSetMessage m) = True"
| "actuator_access _ = False"

fun is_resume :: "'m event \<Rightarrow> bool" where
  "is_resume (EvKill pid sig) = (sig = SIGCONT)"
| "is_resume _ = False"

fun is_wait :: "'m event \<Rightarrow> bool" where
  "is_wait (EvWaitpid pid options) = True"
| "is_wait _ = False"

text \<open>The events of one protocol round with the child \<open>pid\<close>: accesses that
  publish sensor values, then one SIGCONT and one wait with WUNTRACED, then accesses
  that read actuator values back.\<close>

definition round_of :: "int \<Rightarrow> 'm event list \<Rightarrow> bool" where
  "round_of pid evs =
     (\<exists>pre post.
        evs = pre @ [EvKill pid SIGCONT, EvWaitpid pid WUNTRACED] @ post \<and>
        list_all sensor_access pre \<and> list_all actuator_access post)"

text \<open>A store into one of the fields that only the behaviour process writes; a store
  into the inbox.\<close>

fun output_store :: "'m event \<Rightarrow> bool" where
  "output_store (EvStore f) = (f = LeftMotor \<or> f = RightMotor \<or> f = Color \<or> f = TxMessage)"
| "output_store _ = False"

fun inbox_store :: "'m event \<Rightarrow> bool" where
  "inbox_store (EvStore RxState) = True"
| "inbox_store (EvStore (RxMessage i)) = True"
| "inbox_store (EvStore (RxDistance i)) = True"
| "inbox_store _ = False"

subsection \<open>Example inputs\<close>

text \<open>A robot with every device, whose system calls all succeed; the object that is
  mapped holds stale data.\<close>

definition ex_env :: "(nat, nat) init_env" where
  "ex_env =
     \<lparr>has_differential_steering = True, has_leds = True,
      has_communication_actuator = True, has_communication_sensor = True,
      has_light = True,
      cfg_behavior = Some ''behaviors/blinky'', cfg_id = ''kb7'',
      os_open = 5, os_open_errno = 0,
      os_getpid = 4000,
      os_shm_open = 6, os_shm_open_errno = 0,
      os_ftruncate = 0, os_ftruncate_errno = 0,
      os_mmap_failed = False, os_mmap_errno = 0,
      os_region =
        \<lparr>ambientlight = 9, rx_state = 1, rx_message = [4, 0, 4], rx_distance = [1, 1, 1],
         tx_state = 2, tx_message = 8, left_motor = 60, right_motor = 70, color = 5,
         voltage = 3, temperature = 20\<rparr>,
      os_fork = 4001, os_fork_errno = 0,
      os_execl_errno = None,
      clock_tick_ms = 100, rng_seed = 12345\<rparr>"

text \<open>The controller that \<open>Init\<close> returns there.\<close>

definition ex_ctrl :: "(nat, nat) controller" where
  "ex_ctrl =
     \<lparr>m_ptRobotState =
        \<lparr>ambientlight = 0, rx_state = 0, rx_message = [0, 0, 0], rx_distance = [0, 0, 0],
         tx_state = 0, tx_message = 0, left_motor = 0, right_motor = 0, color = 0,
         voltage = 0, temperature = 0\<rparr>,
      m_pcMotors = True, m_pcLED = True, m_pcLight = True,
      m_pcCommA = True, m_pcCommS = True,
      m_nSharedMemFD = 6, m_tBehaviorPID = 4001, robot_id = ''kb7''\<rparr>"

text \<open>A tick with two received packets and a sent message, in which the behaviour
  process sets both motors, the colour and a message to send, and stops itself.\<close>

definition ex_tick :: "(nat, nat) tick" where
  "ex_tick =
     \<lparr>light_reading = 512,
      packets = [(11, 31), (12, 32)],
      message_sent = True,
      behavior = (\<lambda>s. s\<lparr>tx_state := 1, tx_message := 77, left_motor := 255,
                          right_motor := 128, color := 3\<rparr>),
      tick_end = Suspends\<rparr>"

text \<open>A tick without packets and without a sent message, in which the behaviour
  process changes nothing.\<close>

definition quiet_tick :: "(nat, nat) tick" where
  "quiet_tick =
     \<lparr>light_reading = 500, packets = [], message_sent = False,
      behavior = (\<lambda>s. s), tick_end = Suspends\<rparr>"

text \<open>A tick with 256 received packets.\<close>

definition crowded_tick :: "(nat, nat) tick" where
  "crowded_tick =
     \<lparr>light_reading = 500, packets = replicate 256 (11, 31), message_sent = False,
      behavior = (\<lambda>s. s), tick_end = Suspends\<rparr>"

text \<open>The record after \<open>ex_tick\<close> on \<open>ex_ctrl\<close>, and the events of that call.\<close>

definition ex_state_after :: "(nat, nat) kilobot_state" where
  "ex_state_after =
     \<lparr>ambientlight = 512, rx_state = 2, rx_message = [11, 12, 0],
      rx_distance = [31, 32, 0], tx_state = 1, tx_message = 77,
      left_motor = 255, right_motor = 128, color = 3, voltage = 0,
      temperature = 0\<rparr>"

definition ex_tick_events :: "nat event list" where
  "ex_tick_events =
     [EvStore Ambientlight, EvStore RxState, EvLoad RxState,
      EvStore (RxMessage 0), EvStore (RxDistance 0), EvLoad RxState,
      EvStore (RxMessage 1), EvStore (RxDistance 1), EvLoad RxState,
      EvStore TxState, EvKill 4001 SIGCONT, EvWaitpid 4001 WUNTRACED,
      EvLoad RightMotor, EvLoad LeftMotor, EvSetLinearVelocity 128 255,
      EvLoad Color, EvLoad Color, EvLoad Color, EvSetSingleColor 3,
      EvLoad TxState, EvSetMessage 77]"

text \<open>The events of \<open>Init\<close> when every call succeeds on \<open>ex_env\<close>.\<close>

definition ex_init_events :: "nat event list" where
  "ex_init_events =
     [EvOpen ''behaviors/blinky'', EvClose 5, EvShmOpen (ShmName 4000 ''kb7''),
      EvFtruncate 6, EvMmap 6, EvMemset, EvFork]"

section \<open>Properties\<close>

subsection \<open>Bytes and wait flags\<close>

declare rx_loop.simps [simp del]

lemma wait_flags:
  "WUNTRACED AND WNOHANG = 0" "WUNTRACED \<noteq> 0"
  by (simp_all add: WUNTRACED_def WNOHANG_def)

text \<open>A size of 256 is 0 as a byte, so the minimum is 0 whatever the bound.\<close>

lemma Min_UInt8_256: "Min_UInt8 256 M = 0"
proof -
  have z: "(of_nat 256 :: u8) = 0" by simp
  show ?thesis unfolding Min_UInt8_def z by (simp add: word_gt_0)
qed

lemma Min_UInt8_le: "unat (Min_UInt8 a b) \<le> a \<and> unat (Min_UInt8 a b) \<le> b"
proof -
  have a: "unat (of_nat a :: u8) \<le> a" and b: "unat (of_nat b :: u8) \<le> b"
    by (simp_all add: unat_of_nat)
  show ?thesis
  proof (cases "(of_nat a :: u8) < of_nat b")
    case True
    then have "unat (of_nat a :: u8) < unat (of_nat b :: u8)"
      by (simp add: word_less_nat_alt)
    with True a b show ?thesis by (simp add: Min_UInt8_def)
  next
    case False
    then have "unat (of_nat b :: u8) \<le> unat (of_nat a :: u8)"
      by (simp add: word_less_nat_alt)
    with False a b show ?thesis by (simp add: Min_UInt8_def)
  qed
qed

lemma Min_UInt8_small:
  assumes "a < 256" and "b < 256"
  shows "unat (Min_UInt8 a b) = min a b"
proof -
  from assms have a: "unat (of_nat a :: u8) = a" and b: "unat (of_nat b :: u8) = b"
    by (simp_all add: unat_of_nat)
  then show ?thesis
    by (simp add: Min_UInt8_def word_less_nat_alt)
qed

subsection \<open>The loop and the two halves of ControlStep\<close>

text \<open>The loop touches the two arrays and nothing else, and keeps their extent.\<close>

lemma rx_loop_frame:
  "rx_loop i ps (s, evs) = (s', evs') \<Longrightarrow>
     ambientlight s' = ambientlight s \<and> rx_state s' = rx_state s \<and> tx_state s' = tx_state s \<and>
     tx_message s' = tx_message s \<and> left_motor s' = left_motor s \<and>
     right_motor s' = right_motor s \<and> color s' = color s \<and>
     voltage s' = voltage s \<and> temperature s' = temperature s \<and>
     length (rx_message s') = length (rx_message s) \<and>
     length (rx_distance s') = length (rx_distance s)"
proof (induction i ps "(s, evs)" arbitrary: s evs rule: rx_loop.induct)
  case (1 i ps s evs)
  show ?case
  proof (cases "i < unat (rx_state s)")
    case True
    with "1.prems" "1.hyps"[OF True] show ?thesis
      by (simp add: rx_loop.simps)
  next
    case False
    with "1.prems" show ?thesis
      by (simp add: rx_loop.simps)
  qed
qed

lemma rx_loop_events:
  "rx_loop i ps (s, evs) = (s', evs') \<Longrightarrow> \<exists>ex. evs' = evs @ ex \<and> list_all sensor_access ex"
proof (induction i ps "(s, evs)" arbitrary: s evs rule: rx_loop.induct)
  case (1 i ps s evs)
  show ?case
  proof (cases "i < unat (rx_state s)")
    case True
    with "1.prems" "1.hyps"[OF True] obtain ex where
      "evs' = (evs @ [EvLoad RxState, EvStore (RxMessage i), EvStore (RxDistance i)]) @ ex"
      "list_all sensor_access ex"
      by (auto simp add: rx_loop.simps)
    then show ?thesis by simp
  next
    case False
    with "1.prems" show ?thesis
      by (auto simp add: rx_loop.simps)
  qed
qed

text \<open>Entries \<open>i\<close> up to \<open>rx_state\<close> of both arrays take the packets of the same
  index; the other entries stay.\<close>

lemma rx_loop_copies:
  "rx_loop i ps (s, evs) = (s', evs') \<Longrightarrow>
     unat (rx_state s) \<le> length (rx_message s) \<Longrightarrow>
     unat (rx_state s) \<le> length (rx_distance s) \<Longrightarrow>
     (\<forall>j < length (rx_message s). rx_message s' ! j =
        (if i \<le> j \<and> j < unat (rx_state s) then fst (ps ! j) else rx_message s ! j)) \<and>
     (\<forall>j < length (rx_distance s). rx_distance s' ! j =
        (if i \<le> j \<and> j < unat (rx_state s) then snd (ps ! j) else rx_distance s ! j))"
proof (induction i ps "(s, evs)" arbitrary: s evs rule: rx_loop.induct)
  case (1 i ps s evs)
  show ?case
  proof (cases "i < unat (rx_state s)")
    case True
    let ?s1 = "s\<lparr>rx_message := (rx_message s)[i := fst (ps ! i)],
                  rx_distance := (rx_distance s)[i := snd (ps ! i)]\<rparr>"
    let ?e1 = "evs @ [EvLoad RxState, EvStore (RxMessage i), EvStore (RxDistance i)]"
    from True "1.prems"(1) have r: "rx_loop (Suc i) ps (?s1, ?e1) = (s', evs')"
      by (simp add: rx_loop.simps)
    from "1.hyps" [OF True r] "1.prems"(2,3)
    have ih: "(\<forall>j < length (rx_message s). rx_message s' ! j =
        (if Suc i \<le> j \<and> j < unat (rx_state s) then fst (ps ! j)
         else (rx_message s)[i := fst (ps ! i)] ! j)) \<and>
     (\<forall>j < length (rx_distance s). rx_distance s' ! j =
        (if Suc i \<le> j \<and> j < unat (rx_state s) then snd (ps ! j)
         else (rx_distance s)[i := snd (ps ! i)] ! j))"
      by simp
    show ?thesis
    proof (intro conjI allI impI)
      fix j assume j: "j < length (rx_message s)"
      with ih True show "rx_message s' ! j =
        (if i \<le> j \<and> j < unat (rx_state s) then fst (ps ! j) else rx_message s ! j)"
        by (cases "j = i") (auto simp: nth_list_update)
    next
      fix j assume j: "j < length (rx_distance s)"
      with ih True show "rx_distance s' ! j =
        (if i \<le> j \<and> j < unat (rx_state s) then snd (ps ! j) else rx_distance s ! j)"
        by (cases "j = i") (auto simp: nth_list_update)
    qed
  next
    case False
    with "1.prems" show ?thesis
      by (auto simp add: rx_loop.simps)
  qed
qed

lemma write_sensors_outputs:
  "outputs (fst (write_sensors M t c)) = outputs (m_ptRobotState c)"
  by (auto simp: write_sensors_def outputs_def Let_def split: prod.splits dest!: rx_loop_frame)

lemma write_sensors_tx_state:
  "tx_state (fst (write_sensors M t c)) =
     (if m_pcCommS c \<and> message_sent t then 2 else tx_state (m_ptRobotState c))"
  by (auto simp: write_sensors_def Let_def split: prod.splits dest!: rx_loop_frame)

lemma write_sensors_no_packets:
  "packets t = [] \<Longrightarrow> inbox (fst (write_sensors M t c)) = inbox (m_ptRobotState c)"
  by (auto simp: write_sensors_def inbox_def Let_def split: prod.splits)

lemma write_sensors_no_packets_events:
  "packets t = [] \<Longrightarrow> list_all (\<lambda>e. \<not> inbox_store e) (snd (write_sensors M t c))"
  by (simp add: write_sensors_def)

lemma write_sensors_events: "list_all sensor_access (snd (write_sensors M t c))"
  by (auto simp: write_sensors_def Let_def split: prod.splits dest!: rx_loop_events)

lemma write_sensors_tick_end:
  "write_sensors M (t\<lparr>tick_end := e\<rparr>) c = write_sensors M t c"
  by (simp add: write_sensors_def)

lemma read_actuators_events: "list_all actuator_access (read_actuators c s)"
  by (simp add: read_actuators_def)

text \<open>\<open>ControlStep\<close> returns unless the child hangs, and its result is the record
  as the child left it, or as \<open>write_sensors\<close> left it when no child ran.\<close>

lemma ControlStep_returns:
  "tick_end t \<noteq> Hangs \<Longrightarrow> \<exists>c' p' evs. ControlStep M t c p = Some (c', p', evs)"
  by (cases p; cases "tick_end t")
     (auto simp: ControlStep_def waitpid_def wait_flags split: prod.splits)

lemma ControlStep_result:
  "ControlStep M t c p = Some (c', p', evs) \<Longrightarrow>
     c' = c\<lparr>m_ptRobotState :=
              (if child_runs p then behavior t (fst (write_sensors M t c))
               else fst (write_sensors M t c))\<rparr> \<and>
     evs = snd (write_sensors M t c)
           @ [EvKill (m_tBehaviorPID c) SIGCONT, EvWaitpid (m_tBehaviorPID c) WUNTRACED]
           @ read_actuators c (m_ptRobotState c')"
  by (cases p; cases "tick_end t")
     (auto simp: ControlStep_def waitpid_def wait_flags child_runs_def
           split: prod.splits if_splits)

text \<open>The example ticks, evaluated.\<close>

lemma ControlStep_ex_tick:
  "ControlStep 3 ex_tick ex_ctrl (Running False) =
     Some (ex_ctrl\<lparr>m_ptRobotState := ex_state_after\<rparr>, Stopped False, ex_tick_events)"
  by (simp add: ControlStep_def write_sensors_def read_actuators_def waitpid_def wait_flags
        ex_tick_def ex_ctrl_def ex_state_after_def ex_tick_events_def Min_UInt8_def
        rx_loop.simps)

lemma ControlStep_quiet_tick:
  "ControlStep 3 quiet_tick (ex_ctrl\<lparr>m_ptRobotState := ex_state_after\<rparr>) (Stopped False) =
     Some (ex_ctrl\<lparr>m_ptRobotState := ex_state_after\<lparr>ambientlight := 500\<rparr>\<rparr>,
           Stopped False,
           [EvStore Ambientlight, EvKill 4001 SIGCONT, EvWaitpid 4001 WUNTRACED,
            EvLoad RightMotor, EvLoad LeftMotor, EvSetLinearVelocity 128 255,
            EvLoad Color, EvLoad Color, EvLoad Color, EvSetSingleColor 3,
            EvLoad TxState, EvSetMessage 77])"
  by (simp add: ControlStep_def write_sensors_def read_actuators_def waitpid_def wait_flags
        quiet_tick_def ex_ctrl_def ex_state_after_def)

lemma ControlStep_crowded_tick:
  "ControlStep 3 crowded_tick ex_ctrl (Running False) =
     Some (ex_ctrl\<lparr>m_ptRobotState := (m_ptRobotState ex_ctrl)\<lparr>ambientlight := 500\<rparr>\<rparr>,
           Stopped False,
           [EvStore Ambientlight, EvStore RxState, EvLoad RxState,
            EvKill 4001 SIGCONT, EvWaitpid 4001 WUNTRACED,
            EvLoad RightMotor, EvLoad LeftMotor, EvSetLinearVelocity 0 0,
            EvLoad Color, EvLoad Color, EvLoad Color, EvSetSingleColor 0,
            EvLoad TxState])"
proof -
  have n: "length (packets crowded_tick) = 256" and ne: "packets crowded_tick \<noteq> []"
    by (simp_all add: crowded_tick_def)
  have other: "light_reading crowded_tick = 500" "\<not> message_sent crowded_tick"
    "behavior crowded_tick = (\<lambda>s. s)" "tick_end crowded_tick = Suspends"
    by (simp_all add: crowded_tick_def)
  show ?thesis
    by (simp add: ControlStep_def write_sensors_def read_actuators_def waitpid_def wait_flags
        n ne other Min_UInt8_256 ex_ctrl_def rx_loop.simps)
qed

subsection \<open>Zeroing the record\<close>

lemma list_all_replicate_zero: "list_all (\<lambda>x. x = 0) (replicate n 0)"
  by (simp add: list_all_iff)

lemma all_zero_memset_zero: "all_zero (memset_zero s)"
  by (simp add: all_zero_def memset_zero_def list_all_replicate_zero)

lemma memset_zero_idem: "memset_zero (memset_zero s) = memset_zero s"
  by (simp add: memset_zero_def)

lemma Init_Initialized_state:
  "Init env = (Initialized c p, evs) \<Longrightarrow>
     m_ptRobotState c = memset_zero (os_region env) \<and> p = Running False \<and>
     m_tBehaviorPID c = os_fork env \<and> 0 < os_fork env"
  by (auto simp: Init_def Let_def split: option.splits if_splits)

lemma Init_ex_env: "Init ex_env = (Initialized ex_ctrl (Running False), ex_init_events)"
  by (simp add: Init_def ex_env_def ex_ctrl_def ex_init_events_def memset_zero_def)

text \<open>
  C7: \<open>Reset\<close> sets every field of the State Record to zero, whatever the record
  held; a second \<open>Reset\<close> gives the same all-zero record as the first; and the record
  of a controller that \<open>Init\<close> has set up is all zero.
\<close>

theorem Reset_zeroes_every_field:
  "all_zero (m_ptRobotState (Reset c)) \<and>
   Reset (Reset c) = Reset c \<and>
   (Init env = (Initialized c' p, evs) \<longrightarrow> all_zero (m_ptRobotState c'))"
proof -
  have "all_zero (m_ptRobotState (Reset c))"
    by (simp add: Reset_def all_zero_memset_zero)
  moreover have "Reset (Reset c) = Reset c"
    by (simp add: Reset_def memset_zero_idem)
  moreover have "Init env = (Initialized c' p, evs) \<longrightarrow> all_zero (m_ptRobotState c')"
    using Init_Initialized_state [of env c' p evs] by (simp add: all_zero_memset_zero)
  ultimately show ?thesis by simp
qed

theorem Reset_zeroes_every_field_witness:
  "Init ex_env = (Initialized ex_ctrl (Running False), ex_init_events) \<and>
   all_zero (m_ptRobotState ex_ctrl) \<and>
   all_zero (m_ptRobotState (Reset (ex_ctrl\<lparr>m_ptRobotState := ex_state_after\<rparr>))) \<and>
   Reset (Reset (ex_ctrl\<lparr>m_ptRobotState := ex_state_after\<rparr>)) = ex_ctrl \<and>
   Reset (ex_ctrl\<lparr>m_ptRobotState := ex_state_after\<rparr>) = ex_ctrl"
proof -
  have r: "Reset (ex_ctrl\<lparr>m_ptRobotState := ex_state_after\<rparr>) = ex_ctrl"
    by (simp add: Reset_def memset_zero_def ex_ctrl_def ex_state_after_def)
  from Reset_zeroes_every_field
         [of "ex_ctrl\<lparr>m_ptRobotState := ex_state_after\<rparr>" ex_env ex_ctrl "Running False"
             ex_init_events]
  show ?thesis
    by (simp add: Init_ex_env r)
qed

subsection \<open>Failures of Init\<close>

text \<open>
  C5: when the behaviour file cannot be opened, \<open>Init\<close> throws after the call of
  \<open>open\<close> and before anything else: the only event is that call, so there is no
  fork, and the result carries no child process.
\<close>

theorem Init_unreadable_behavior_no_fork:
  assumes "cfg_behavior env = Some path" and "os_open env < 0"
  shows "fst (Init env) =
           Thrown (ErrorInitializing (cfg_id env)
                     (OpeningBehaviorFile path (os_open_errno env))) \<and>
         snd (Init env) = [EvOpen path] \<and>
         EvFork \<notin> set (snd (Init env))"
  using assms by (simp add: Init_def)

theorem Init_unreadable_behavior_no_fork_witness:
  "cfg_behavior (ex_env\<lparr>os_open := - 1, os_open_errno := 2\<rparr>) = Some ''behaviors/blinky'' \<and>
   os_open (ex_env\<lparr>os_open := - 1, os_open_errno := 2\<rparr>) < 0 \<and>
   Init (ex_env\<lparr>os_open := - 1, os_open_errno := 2\<rparr>) =
     (Thrown (ErrorInitializing ''kb7'' (OpeningBehaviorFile ''behaviors/blinky'' 2)),
      [EvOpen ''behaviors/blinky''])"
proof -
  have h1: "cfg_behavior (ex_env\<lparr>os_open := - 1, os_open_errno := 2\<rparr>) = Some ''behaviors/blinky''"
    by (simp add: ex_env_def)
  have h2: "os_open (ex_env\<lparr>os_open := - 1, os_open_errno := 2\<rparr>) < 0"
    by simp
  have h3: "cfg_id (ex_env\<lparr>os_open := - 1, os_open_errno := 2\<rparr>) = ''kb7''"
    by (simp add: ex_env_def)
  show ?thesis
    using h1 h2 h3 Init_unreadable_behavior_no_fork [OF h1 h2]
    by (simp add: prod_eq_iff)
qed

text \<open>A failure of \<open>shm_open\<close> or of \<open>mmap\<close> is thrown with its \<open>errno\<close>.\<close>

lemma Init_shm_open_failure:
  "cfg_behavior env = Some path \<Longrightarrow> 0 \<le> os_open env \<Longrightarrow> os_shm_open env < 0 \<Longrightarrow>
     fst (Init env) =
       Thrown (ErrorInitializing (cfg_id env)
                 (CreatingSharedMemory (cfg_id env) (os_shm_open_errno env)))"
  by (simp add: Init_def)

lemma Init_mmap_failure:
  "cfg_behavior env = Some path \<Longrightarrow> 0 \<le> os_open env \<Longrightarrow> 0 \<le> os_shm_open env \<Longrightarrow>
   os_mmap_failed env \<Longrightarrow>
     fst (Init env) =
       Thrown (ErrorInitializing (cfg_id env)
                 (MmappingSharedMemory (cfg_id env) (os_mmap_errno env)))"
  by (simp add: Init_def)

text \<open>What \<open>ftruncate\<close> returns plays no part in \<open>Init\<close>.\<close>

lemma Init_ignores_ftruncate:
  "Init (env\<lparr>os_ftruncate := r, os_ftruncate_errno := e\<rparr>) = Init env"
  by (simp add: Init_def Let_def split: option.split)

text \<open>
  C4: \<open>Init\<close> is to fail when the shared memory object cannot be created, sized or
  mapped. Where \<open>ftruncate\<close> fails (it returns -1, with \<open>errno\<close> 28) and every other
  call succeeds, \<open>Init\<close> throws nothing: it maps, zeroes, forks and returns the
  controller, as if the object had been sized.
\<close>

theorem Init_ftruncate_failure_unreported:
  "os_ftruncate (ex_env\<lparr>os_ftruncate := - 1, os_ftruncate_errno := 28\<rparr>) = - 1 \<and>
   Init (ex_env\<lparr>os_ftruncate := - 1, os_ftruncate_errno := 28\<rparr>) =
     (Initialized ex_ctrl (Running False),
      [EvOpen ''behaviors/blinky'', EvClose 5, EvShmOpen (ShmName 4000 ''kb7''),
       EvFtruncate 6, EvMmap 6, EvMemset, EvFork])"
  by (simp add: Init_ignores_ftruncate Init_ex_env ex_init_events_def)

subsection \<open>One round per tick\<close>

lemma sensor_access_not_signal:
  "list_all sensor_access evs \<Longrightarrow> filter is_resume evs = [] \<and> filter is_wait evs = []"
proof (induction evs)
  case Nil
  then show ?case by simp
next
  case (Cons e evs)
  then show ?case by (cases e) simp_all
qed

lemma actuator_access_not_signal:
  "list_all actuator_access evs \<Longrightarrow> filter is_resume evs = [] \<and> filter is_wait evs = []"
proof (induction evs)
  case Nil
  then show ?case by simp
next
  case (Cons e evs)
  then show ?case by (cases e) simp_all
qed

lemma round_of_signals:
  assumes "round_of pid evs"
  shows "filter is_resume evs = [EvKill pid SIGCONT] \<and>
         filter is_wait evs = [EvWaitpid pid WUNTRACED]"
proof -
  from assms obtain pre post where
    evs: "evs = pre @ [EvKill pid SIGCONT, EvWaitpid pid WUNTRACED] @ post"
    and pre: "list_all sensor_access pre" and post: "list_all actuator_access post"
    unfolding round_of_def by blast
  from sensor_access_not_signal [OF pre] actuator_access_not_signal [OF post] evs
  show ?thesis by simp
qed

lemma ControlStep_round:
  assumes "ControlStep M t c p = Some (c', p', evs)"
  shows "round_of (m_tBehaviorPID c) evs \<and> m_tBehaviorPID c' = m_tBehaviorPID c"
proof -
  from ControlStep_result [OF assms]
  have c': "m_tBehaviorPID c' = m_tBehaviorPID c"
    and evs: "evs = snd (write_sensors M t c)
           @ [EvKill (m_tBehaviorPID c) SIGCONT, EvWaitpid (m_tBehaviorPID c) WUNTRACED]
           @ read_actuators c (m_ptRobotState c')"
    by simp_all
  have "round_of (m_tBehaviorPID c) evs"
    unfolding round_of_def
    using evs write_sensors_events [of M t c] read_actuators_events [of c "m_ptRobotState c'"]
    by blast
  with c' show ?thesis by simp
qed

lemma ControlSteps_rounds:
  "list_all (\<lambda>t. tick_end t \<noteq> Hangs) ts \<Longrightarrow>
     \<exists>c' p' evss. ControlSteps M ts c p = Some (c', p', evss) \<and>
       length evss = length ts \<and> list_all (round_of (m_tBehaviorPID c)) evss"
proof (induction ts arbitrary: c p)
  case Nil
  then show ?case by simp
next
  case (Cons t ts)
  from Cons.prems have t: "tick_end t \<noteq> Hangs" and ts: "list_all (\<lambda>t. tick_end t \<noteq> Hangs) ts"
    by simp_all
  from ControlStep_returns [OF t] obtain c1 p1 evs where
    step: "ControlStep M t c p = Some (c1, p1, evs)" by blast
  from ControlStep_round [OF step] have r: "round_of (m_tBehaviorPID c) evs"
    and pid: "m_tBehaviorPID c1 = m_tBehaviorPID c" by simp_all
  from Cons.IH [OF ts, of c1 p1] obtain c2 p2 evss where
    rest: "ControlSteps M ts c1 p1 = Some (c2, p2, evss)"
    and len: "length evss = length ts"
    and rs: "list_all (round_of (m_tBehaviorPID c1)) evss" by blast
  from step rest len r rs pid show ?case by simp
qed

lemma rounds_count:
  "list_all (round_of pid) evss \<Longrightarrow>
     length (filter is_resume (concat evss)) = length evss \<and>
     length (filter is_wait (concat evss)) = length evss"
proof (induction evss)
  case Nil
  then show ?case by simp
next
  case (Cons evs evss)
  then have "round_of pid evs" by simp
  from round_of_signals [OF this] Cons show ?case by simp
qed

text \<open>
  C1: after a successful \<open>Init\<close>, \<open>N\<close> calls of \<open>ControlStep\<close> (none of whose
  ticks hangs) all return; together they send exactly \<open>N\<close> SIGCONT signals and wait
  exactly \<open>N\<close> times; and the events of each call are accesses that publish sensor
  values, then the SIGCONT and the one blocking wait, then accesses that read actuator
  values back.
\<close>

theorem ControlSteps_resume_and_wait_once:
  assumes "Init env = (Initialized c p, evs0)"
    and "list_all (\<lambda>t. tick_end t \<noteq> Hangs) ts"
  shows "\<exists>c' p' evss.
           ControlSteps max_rx ts c p = Some (c', p', evss) \<and>
           length evss = length ts \<and>
           length (filter is_resume (concat evss)) = length ts \<and>
           length (filter is_wait (concat evss)) = length ts \<and>
           (\<forall>evs\<in>set evss. \<exists>pre post.
              evs = pre @ [EvKill (os_fork env) SIGCONT, EvWaitpid (os_fork env) WUNTRACED] @ post \<and>
              list_all sensor_access pre \<and> list_all actuator_access post)"
proof -
  from Init_Initialized_state [OF assms(1)] have pid: "m_tBehaviorPID c = os_fork env"
    by simp
  from ControlSteps_rounds [OF assms(2), of max_rx c p] obtain c' p' evss where
    run: "ControlSteps max_rx ts c p = Some (c', p', evss)"
    and len: "length evss = length ts"
    and rs: "list_all (round_of (os_fork env)) evss"
    using pid by auto
  from rounds_count [OF rs] len
  have "length (filter is_resume (concat evss)) = length ts"
    and "length (filter is_wait (concat evss)) = length ts" by simp_all
  moreover from rs have "\<forall>evs\<in>set evss. \<exists>pre post.
              evs = pre @ [EvKill (os_fork env) SIGCONT, EvWaitpid (os_fork env) WUNTRACED] @ post \<and>
              list_all sensor_access pre \<and> list_all actuator_access post"
    by (simp add: list_all_iff round_of_def)
  ultimately show ?thesis using run len by blast
qed

theorem ControlSteps_resume_and_wait_once_witness:
  "Init ex_env = (Initialized ex_ctrl (Running False), ex_init_events) \<and>
   list_all (\<lambda>t. tick_end t \<noteq> Hangs) [ex_tick, quiet_tick] \<and>
   (\<exists>c' p' evss.
      ControlSteps 3 [ex_tick, quiet_tick] ex_ctrl (Running False) = Some (c', p', evss) \<and>
      length evss = 2 \<and>
      length (filter is_resume (concat evss)) = 2 \<and>
      length (filter is_wait (concat evss)) = 2)"
proof -
  have h: "list_all (\<lambda>t. tick_end t \<noteq> Hangs) [ex_tick, quiet_tick]"
    by (simp add: ex_tick_def quiet_tick_def)
  from ControlSteps_resume_and_wait_once [OF Init_ex_env h, of 3]
  obtain c' p' evss where
    "ControlSteps 3 [ex_tick, quiet_tick] ex_ctrl (Running False) = Some (c', p', evss)"
    "length evss = 2"
    "length (filter is_resume (concat evss)) = 2"
    "length (filter is_wait (concat evss)) = 2"
    by auto
  with h Init_ex_env show ?thesis by blast
qed

subsection \<open>A child that exits during the tick\<close>

text \<open>The wait itself tells an exit from a stop.\<close>

lemma waitpid_reports_exit:
  "waitpid WUNTRACED beh Exits (Running False) s = Some (WExited, NoChild, beh s) \<and>
   waitpid WUNTRACED beh Suspends (Running False) s = Some (WStopped, Stopped False, beh s)"
  by (simp add: waitpid_def wait_flags)

text \<open>
  C2, as stated, asks that a child which exits during the tick makes \<open>ControlStep\<close>
  end otherwise than for a completed tick. On \<open>ex_tick\<close> it does not: with a child
  that exits, \<open>ControlStep\<close> returns the same controller and the same events,
  actuator calls included, as with a child that stops itself; only the process table
  differs.
\<close>

theorem ControlStep_child_exit_counterexample:
  "ControlStep 3 (ex_tick\<lparr>tick_end := Exits\<rparr>) ex_ctrl (Running False) =
     Some (ex_ctrl\<lparr>m_ptRobotState := ex_state_after\<rparr>, NoChild, ex_tick_events) \<and>
   ControlStep 3 (ex_tick\<lparr>tick_end := Suspends\<rparr>) ex_ctrl (Running False) =
     Some (ex_ctrl\<lparr>m_ptRobotState := ex_state_after\<rparr>, Stopped False, ex_tick_events)"
  by (simp add: ControlStep_def write_sensors_def read_actuators_def waitpid_def wait_flags
        ex_tick_def ex_ctrl_def ex_state_after_def ex_tick_events_def Min_UInt8_def
        rx_loop.simps)

text \<open>
  C2, amended: whether the child exits during the tick or stops itself,
  \<open>ControlStep\<close> returns, with the same controller and the same events; the result of
  the wait is dropped.
\<close>

theorem ControlStep_drops_wait_result:
  "\<exists>c' pe ps evs.
     ControlStep max_rx (t\<lparr>tick_end := Exits\<rparr>) c p = Some (c', pe, evs) \<and>
     ControlStep max_rx (t\<lparr>tick_end := Suspends\<rparr>) c p = Some (c', ps, evs)"
proof -
  obtain c1 p1 evs1 where
    e: "ControlStep max_rx (t\<lparr>tick_end := Exits\<rparr>) c p = Some (c1, p1, evs1)"
    using ControlStep_returns [of "t\<lparr>tick_end := Exits\<rparr>" max_rx c p] by auto
  obtain c2 p2 evs2 where
    s: "ControlStep max_rx (t\<lparr>tick_end := Suspends\<rparr>) c p = Some (c2, p2, evs2)"
    using ControlStep_returns [of "t\<lparr>tick_end := Suspends\<rparr>" max_rx c p] by auto
  from ControlStep_result [OF e] ControlStep_result [OF s]
  have "c1 = c2" and "evs1 = evs2"
    by (simp_all add: write_sensors_tick_end)
  with e s show ?thesis by blast
qed

subsection \<open>The count of received packets\<close>

text \<open>The count that \<open>write_sensors\<close> stores is at most \<open>max_rx\<close> and at most the
  number of packets, so the loop stays inside the arrays and inside the packets.\<close>

lemma write_sensors_rx_state_le:
  assumes "m_pcCommS c" and "packets t \<noteq> []"
  shows "unat (rx_state (fst (write_sensors M t c))) \<le> M \<and>
         unat (rx_state (fst (write_sensors M t c))) \<le> length (packets t)"
  using assms Min_UInt8_le [of "length (packets t)" M]
  by (auto simp: write_sensors_def Let_def split: prod.splits dest!: rx_loop_frame)

lemma write_sensors_rx:
  assumes "m_pcCommS c" and "packets t \<noteq> []"
  shows "\<exists>s0 e0 s3 e3.
           rx_loop 0 (packets t) (s0\<lparr>rx_state := Min_UInt8 (length (packets t)) M\<rparr>, e0) = (s3, e3) \<and>
           inbox (fst (write_sensors M t c)) = inbox s3 \<and>
           rx_message s0 = rx_message (m_ptRobotState c) \<and>
           rx_distance s0 = rx_distance (m_ptRobotState c)"
proof -
  define s0 where "s0 = (if m_pcLight c then (m_ptRobotState c)\<lparr>ambientlight := light_reading t\<rparr>
                         else m_ptRobotState c)"
  define e0 :: "'a event list" where
    "e0 = (if m_pcLight c then [EvStore Ambientlight] else []) @ [EvStore RxState]"
  obtain s3 e3 where
    r: "rx_loop 0 (packets t) (s0\<lparr>rx_state := Min_UInt8 (length (packets t)) M\<rparr>, e0) = (s3, e3)"
    by (cases "rx_loop 0 (packets t) (s0\<lparr>rx_state := Min_UInt8 (length (packets t)) M\<rparr>, e0)")
  from assms r have "inbox (fst (write_sensors M t c)) = inbox s3"
    by (auto simp: write_sensors_def inbox_def s0_def e0_def)
  moreover have "rx_message s0 = rx_message (m_ptRobotState c)"
    and "rx_distance s0 = rx_distance (m_ptRobotState c)"
    by (simp_all add: s0_def)
  ultimately show ?thesis using r by blast
qed

text \<open>With more than \<open>max_rx\<close> and fewer than 256 packets, the count is \<open>max_rx\<close>
  and the arrays hold the first \<open>max_rx\<close> packets.\<close>

lemma write_sensors_truncates:
  assumes commS: "m_pcCommS c"
    and more: "M < length (packets t)" and small: "length (packets t) < 256"
    and lm: "length (rx_message (m_ptRobotState c)) = M"
    and ld: "length (rx_distance (m_ptRobotState c)) = M"
  shows "inbox (fst (write_sensors M t c)) =
           (of_nat M, map fst (take M (packets t)), map snd (take M (packets t)))"
proof -
  from more have ne: "packets t \<noteq> []" by auto
  from write_sensors_rx [OF commS ne, of M] obtain s0 e0 s3 e3 where
    r: "rx_loop 0 (packets t) (s0\<lparr>rx_state := Min_UInt8 (length (packets t)) M\<rparr>, e0) = (s3, e3)"
    and i: "inbox (fst (write_sensors M t c)) = inbox s3"
    and m0: "rx_message s0 = rx_message (m_ptRobotState c)"
    and d0: "rx_distance s0 = rx_distance (m_ptRobotState c)"
    by blast
  from more small have M: "M < 256" by simp
  from Min_UInt8_small [OF small M] more
  have n: "unat (Min_UInt8 (length (packets t)) M) = M" by simp
  have "(of_nat (unat (Min_UInt8 (length (packets t)) M)) :: u8) = Min_UInt8 (length (packets t)) M"
    by simp
  with n have w: "Min_UInt8 (length (packets t)) M = of_nat M"
    by simp
  from rx_loop_frame [OF r] lm ld m0 d0 w
  have f: "rx_state s3 = of_nat M" "length (rx_message s3) = M" "length (rx_distance s3) = M"
    by simp_all
  from rx_loop_copies [OF r] n lm ld m0 d0
  have c: "\<forall>j<M. rx_message s3 ! j = fst (packets t ! j)"
    "\<forall>j<M. rx_distance s3 ! j = snd (packets t ! j)"
    by simp_all
  from f c more have "rx_message s3 = map fst (take M (packets t))"
    by (intro nth_equalityI) simp_all
  moreover from f c more have "rx_distance s3 = map snd (take M (packets t))"
    by (intro nth_equalityI) simp_all
  ultimately show ?thesis using i f by (simp add: inbox_def)
qed

text \<open>
  C3: with more packets than \<open>max_rx\<close>, the count is to be \<open>max_rx\<close> and the first
  \<open>max_rx\<close> packets are to be copied. With 256 packets and \<open>max_rx = 3\<close> the size
  256 is converted to a byte before the minimum is taken, so \<open>ControlStep\<close> stores
  the count 0 and copies nothing: the inbox is as empty as before.
\<close>

theorem ControlStep_rx_count_wraps:
  "length (packets crowded_tick) = 256 \<and>
   ControlStep 3 crowded_tick ex_ctrl (Running False) =
     Some (ex_ctrl\<lparr>m_ptRobotState := (m_ptRobotState ex_ctrl)\<lparr>ambientlight := 500\<rparr>\<rparr>,
           Stopped False,
           [EvStore Ambientlight, EvStore RxState, EvLoad RxState,
            EvKill 4001 SIGCONT, EvWaitpid 4001 WUNTRACED,
            EvLoad RightMotor, EvLoad LeftMotor, EvSetLinearVelocity 0 0,
            EvLoad Color, EvLoad Color, EvLoad Color, EvSetSingleColor 0,
            EvLoad TxState]) \<and>
   inbox ((m_ptRobotState ex_ctrl)\<lparr>ambientlight := 500\<rparr>) = (0, [0, 0, 0], [0, 0, 0])"
  by (simp add: ControlStep_crowded_tick) (simp add: crowded_tick_def inbox_def ex_ctrl_def)

subsection \<open>What ControlStep leaves alone\<close>

lemma sensor_access_not_output_store:
  "list_all sensor_access evs \<Longrightarrow> list_all (\<lambda>e. \<not> output_store e) evs"
proof (induction evs)
  case Nil
  then show ?case by simp
next
  case (Cons e evs)
  then show ?case by (cases e) auto
qed

lemma actuator_access_not_store:
  "list_all actuator_access evs \<Longrightarrow>
     list_all (\<lambda>e. \<not> output_store e) evs \<and> list_all (\<lambda>e. \<not> inbox_store e) evs"
proof (induction evs)
  case Nil
  then show ?case by simp
next
  case (Cons e evs)
  then show ?case by (cases e) auto
qed

lemma ControlStep_outputs:
  assumes "ControlStep M t c p = Some (c', p', evs)"
  shows "outputs (m_ptRobotState c') =
           (if child_runs p then outputs (behavior t (fst (write_sensors M t c)))
            else outputs (m_ptRobotState c))"
  using ControlStep_result [OF assms] write_sensors_outputs [of M t c] by simp

lemma ControlStep_no_output_store:
  assumes "ControlStep M t c p = Some (c', p', evs)"
  shows "list_all (\<lambda>e. \<not> output_store e) evs"
proof -
  from ControlStep_result [OF assms]
  have "evs = snd (write_sensors M t c)
           @ [EvKill (m_tBehaviorPID c) SIGCONT, EvWaitpid (m_tBehaviorPID c) WUNTRACED]
           @ read_actuators c (m_ptRobotState c')"
    by simp
  moreover have "list_all (\<lambda>e. \<not> output_store e) (snd (write_sensors M t c))"
    by (rule sensor_access_not_output_store) (rule write_sensors_events)
  moreover have "list_all (\<lambda>e. \<not> output_store e) (read_actuators c (m_ptRobotState c'))"
    using actuator_access_not_store [OF read_actuators_events [of c "m_ptRobotState c'"]]
    by simp
  ultimately show ?thesis by simp
qed

text \<open>
  C8: the simulator's half of \<open>ControlStep\<close> stores into \<open>tx_state\<close> only the
  value 2, and only when the sensor reports the message as sent; after the wait the
  record is as the child left it. So when \<open>tx_state\<close> is not 1 before a call and is
  1 after it, the child ran in that call, was handed a record whose \<open>tx_state\<close> was
  not 1, and left the 1 itself.
\<close>

theorem ControlStep_never_sets_tx_ready:
  "tx_state (fst (write_sensors max_rx t c)) =
     (if m_pcCommS c \<and> message_sent t then 2 else tx_state (m_ptRobotState c)) \<and>
   (ControlStep max_rx t c p = Some (c', p', evs) \<longrightarrow>
      m_ptRobotState c' =
        (if child_runs p then behavior t (fst (write_sensors max_rx t c))
         else fst (write_sensors max_rx t c))) \<and>
   (ControlStep max_rx t c p = Some (c', p', evs) \<and>
    tx_state (m_ptRobotState c) \<noteq> 1 \<and> tx_state (m_ptRobotState c') = 1 \<longrightarrow>
      child_runs p \<and>
      tx_state (fst (write_sensors max_rx t c)) \<noteq> 1 \<and>
      tx_state (behavior t (fst (write_sensors max_rx t c))) = 1)"
proof -
  have w: "tx_state (fst (write_sensors max_rx t c)) =
     (if m_pcCommS c \<and> message_sent t then 2 else tx_state (m_ptRobotState c))"
    by (rule write_sensors_tx_state)
  have r: "m_ptRobotState c' =
        (if child_runs p then behavior t (fst (write_sensors max_rx t c))
         else fst (write_sensors max_rx t c))"
    if "ControlStep max_rx t c p = Some (c', p', evs)"
    using ControlStep_result [OF that] by simp
  have "child_runs p \<and>
        tx_state (fst (write_sensors max_rx t c)) \<noteq> 1 \<and>
        tx_state (behavior t (fst (write_sensors max_rx t c))) = 1"
    if step: "ControlStep max_rx t c p = Some (c', p', evs)"
      and before: "tx_state (m_ptRobotState c) \<noteq> 1"
      and after: "tx_state (m_ptRobotState c') = 1"
  proof -
    from w before have ne: "tx_state (fst (write_sensors max_rx t c)) \<noteq> 1"
      by (simp split: if_splits)
    have "child_runs p"
    proof (rule ccontr)
      assume "\<not> child_runs p"
      with r [OF step] ne after show False by simp
    qed
    with r [OF step] ne after show ?thesis by simp
  qed
  with w r show ?thesis by blast
qed

theorem ControlStep_never_sets_tx_ready_witness:
  "ControlStep 3 ex_tick ex_ctrl (Running False) =
     Some (ex_ctrl\<lparr>m_ptRobotState := ex_state_after\<rparr>, Stopped False, ex_tick_events) \<and>
   tx_state (m_ptRobotState ex_ctrl) = 0 \<and>
   tx_state ex_state_after = 1 \<and>
   child_runs (Running False) \<and>
   tx_state (fst (write_sensors 3 ex_tick ex_ctrl)) = 2 \<and>
   tx_state (behavior ex_tick (fst (write_sensors 3 ex_tick ex_ctrl))) = 1"
proof -
  have b: "tx_state (m_ptRobotState ex_ctrl) = 0" "m_pcCommS ex_ctrl"
    by (simp_all add: ex_ctrl_def)
  have a: "tx_state ex_state_after = 1" "message_sent ex_tick"
    by (simp_all add: ex_state_after_def ex_tick_def)
  from ControlStep_never_sets_tx_ready
         [of 3 ex_tick ex_ctrl "Running False" "ex_ctrl\<lparr>m_ptRobotState := ex_state_after\<rparr>"
             "Stopped False" ex_tick_events]
  show ?thesis
    by (simp add: ControlStep_ex_tick a b)
qed

text \<open>
  C9: \<open>ControlStep\<close> stores nothing into \<open>left_motor\<close>, \<open>right_motor\<close>,
  \<open>color\<close> and \<open>tx_message\<close>: the record it hands to the child has them as they
  were, no event of the call is a store into one of them, and after the call they are
  as the child left them in this tick, or as they were when no child ran.
\<close>

theorem ControlStep_keeps_behavior_outputs:
  assumes "ControlStep max_rx t c p = Some (c', p', evs)"
  shows "outputs (fst (write_sensors max_rx t c)) = outputs (m_ptRobotState c) \<and>
         m_ptRobotState c' =
           (if child_runs p then behavior t (fst (write_sensors max_rx t c))
            else fst (write_sensors max_rx t c)) \<and>
         outputs (m_ptRobotState c') =
           (if child_runs p then outputs (behavior t (fst (write_sensors max_rx t c)))
            else outputs (m_ptRobotState c)) \<and>
         list_all (\<lambda>e. \<not> output_store e) evs"
  using ControlStep_result [OF assms] ControlStep_outputs [OF assms]
    ControlStep_no_output_store [OF assms] write_sensors_outputs [of max_rx t c]
  by simp

theorem ControlStep_keeps_behavior_outputs_witness:
  "ControlStep 3 ex_tick ex_ctrl (Running False) =
     Some (ex_ctrl\<lparr>m_ptRobotState := ex_state_after\<rparr>, Stopped False, ex_tick_events) \<and>
   outputs (m_ptRobotState ex_ctrl) = (0, 0, 0, 0) \<and>
   outputs (fst (write_sensors 3 ex_tick ex_ctrl)) = (0, 0, 0, 0) \<and>
   outputs ex_state_after = (255, 128, 3, 77) \<and>
   outputs (behavior ex_tick (fst (write_sensors 3 ex_tick ex_ctrl))) = (255, 128, 3, 77) \<and>
   list_all (\<lambda>e. \<not> output_store e) ex_tick_events"
proof -
  have o1: "outputs (m_ptRobotState ex_ctrl) = (0, 0, 0, 0)"
    by (simp add: outputs_def ex_ctrl_def)
  have o2: "outputs ex_state_after = (255, 128, 3, 77)"
    by (simp add: outputs_def ex_state_after_def)
  have r: "child_runs (Running False)"
    by (simp add: child_runs_def)
  have sel: "m_ptRobotState (ex_ctrl\<lparr>m_ptRobotState := ex_state_after\<rparr>) = ex_state_after"
    by simp
  note t = ControlStep_keeps_behavior_outputs [OF ControlStep_ex_tick]
  from t have a: "outputs (fst (write_sensors 3 ex_tick ex_ctrl)) = outputs (m_ptRobotState ex_ctrl)"
    by (rule conjunct1)
  from t have b0: "outputs (m_ptRobotState (ex_ctrl\<lparr>m_ptRobotState := ex_state_after\<rparr>)) =
      (if child_runs (Running False)
       then outputs (behavior ex_tick (fst (write_sensors 3 ex_tick ex_ctrl)))
       else outputs (m_ptRobotState ex_ctrl))"
    by (elim conjE)
  from t have c: "list_all (\<lambda>e. \<not> output_store e) ex_tick_events"
    by (elim conjE)
  from b0 have b: "outputs (behavior ex_tick (fst (write_sensors 3 ex_tick ex_ctrl))) =
      outputs ex_state_after"
    unfolding sel if_P [OF r] by (rule sym)
  from a o1 have a': "outputs (fst (write_sensors 3 ex_tick ex_ctrl)) = (0, 0, 0, 0)"
    by (rule trans)
  from b o2 have b': "outputs (behavior ex_tick (fst (write_sensors 3 ex_tick ex_ctrl))) =
      (255, 128, 3, 77)"
    by (rule trans)
  from ControlStep_ex_tick o1 a' o2 b' c show ?thesis
    by blast
qed

text \<open>
  C10: in a tick without received packets \<open>ControlStep\<close> stores nothing into
  \<open>rx_state\<close>, \<open>rx_message\<close> and \<open>rx_distance\<close>: the record it hands to the
  child has the inbox of the tick before, and after the call the inbox is as the child
  left it, or as it was when no child ran.
\<close>

theorem ControlStep_no_packets_keeps_inbox:
  assumes "packets t = []" and "ControlStep max_rx t c p = Some (c', p', evs)"
  shows "inbox (fst (write_sensors max_rx t c)) = inbox (m_ptRobotState c) \<and>
         inbox (m_ptRobotState c') =
           (if child_runs p then inbox (behavior t (fst (write_sensors max_rx t c)))
            else inbox (m_ptRobotState c)) \<and>
         list_all (\<lambda>e. \<not> inbox_store e) evs"
proof -
  have w: "inbox (fst (write_sensors max_rx t c)) = inbox (m_ptRobotState c)"
    by (rule write_sensors_no_packets [OF assms(1)])
  from ControlStep_result [OF assms(2)]
  have st: "m_ptRobotState c' =
        (if child_runs p then behavior t (fst (write_sensors max_rx t c))
         else fst (write_sensors max_rx t c))"
    and evs: "evs = snd (write_sensors max_rx t c)
           @ [EvKill (m_tBehaviorPID c) SIGCONT, EvWaitpid (m_tBehaviorPID c) WUNTRACED]
           @ read_actuators c (m_ptRobotState c')"
    by simp_all
  have "list_all (\<lambda>e. \<not> inbox_store e) (read_actuators c (m_ptRobotState c'))"
    using actuator_access_not_store [OF read_actuators_events [of c "m_ptRobotState c'"]]
    by simp
  with evs write_sensors_no_packets_events [OF assms(1), of max_rx c]
  have "list_all (\<lambda>e. \<not> inbox_store e) evs" by simp
  with w st show ?thesis by simp
qed

theorem ControlStep_no_packets_keeps_inbox_witness:
  "packets quiet_tick = [] \<and>
   ControlStep 3 quiet_tick (ex_ctrl\<lparr>m_ptRobotState := ex_state_after\<rparr>) (Stopped False) =
     Some (ex_ctrl\<lparr>m_ptRobotState := ex_state_after\<lparr>ambientlight := 500\<rparr>\<rparr>,
           Stopped False,
           [EvStore Ambientlight, EvKill 4001 SIGCONT, EvWaitpid 4001 WUNTRACED,
            EvLoad RightMotor, EvLoad LeftMotor, EvSetLinearVelocity 128 255,
            EvLoad Color, EvLoad Color, EvLoad Color, EvSetSingleColor 3,
            EvLoad TxState, EvSetMessage 77]) \<and>
   inbox ex_state_after = (2, [11, 12, 0], [31, 32, 0]) \<and>
   inbox (fst (write_sensors 3 quiet_tick (ex_ctrl\<lparr>m_ptRobotState := ex_state_after\<rparr>))) =
     (2, [11, 12, 0], [31, 32, 0]) \<and>
   inbox (ex_state_after\<lparr>ambientlight := 500\<rparr>) = (2, [11, 12, 0], [31, 32, 0])"
proof -
  have h: "packets quiet_tick = []"
    by (simp add: quiet_tick_def)
  have i: "inbox ex_state_after = (2, [11, 12, 0], [31, 32, 0])"
    by (simp add: inbox_def ex_state_after_def)
  have j: "inbox (ex_state_after\<lparr>ambientlight := 500\<rparr>) = (2, [11, 12, 0], [31, 32, 0])"
    by (simp add: inbox_def ex_state_after_def)
  have sel: "m_ptRobotState (ex_ctrl\<lparr>m_ptRobotState := ex_state_after\<rparr>) = ex_state_after"
    by simp
  note t = ControlStep_no_packets_keeps_inbox [OF h ControlStep_quiet_tick]
  from t have "inbox (fst (write_sensors 3 quiet_tick (ex_ctrl\<lparr>m_ptRobotState := ex_state_after\<rparr>))) =
      inbox (m_ptRobotState (ex_ctrl\<lparr>m_ptRobotState := ex_state_after\<rparr>))"
    by (rule conjunct1)
  then have "inbox (fst (write_sensors 3 quiet_tick (ex_ctrl\<lparr>m_ptRobotState := ex_state_after\<rparr>))) =
      inbox ex_state_after"
    unfolding sel .
  from this i have a: "inbox (fst (write_sensors 3 quiet_tick (ex_ctrl\<lparr>m_ptRobotState := ex_state_after\<rparr>))) =
      (2, [11, 12, 0], [31, 32, 0])"
    by (rule trans)
  from h ControlStep_quiet_tick i a j show ?thesis
    by blast
qed

subsection \<open>Destroy\<close>

text \<open>When \<open>Destroy\<close> returns, its events are the two signals, the wait, and then the
  release of the mapping, the descriptor and the name, in that order.\<close>

lemma Destroy_events:
  "Destroy nStatus ppid c p = Some (c', p', evs) \<Longrightarrow>
     evs = [EvKill (m_tBehaviorPID c) SIGTERM, EvKill (m_tBehaviorPID c) SIGCONT,
            EvWaitpid (m_tBehaviorPID c) (WIFEXITED nStatus),
            EvMunmap, EvClose (m_nSharedMemFD c), EvShmUnlink (ShmName ppid (robot_id c))]"
  by (auto simp: Destroy_def Let_def split: option.splits)

text \<open>\<open>Destroy\<close> always returns, also when the child exited earlier.\<close>

lemma Destroy_returns:
  "\<exists>c' p' evs. Destroy nStatus ppid c p = Some (c', p', evs)"
  by (cases p) (auto simp: Destroy_def waitpid_def)

lemma Destroy_dead_child:
  "p = Zombie \<or> p = NoChild \<Longrightarrow> \<exists>c' evs. Destroy nStatus ppid c p = Some (c', NoChild, evs)"
  by (auto simp: Destroy_def waitpid_def)

text \<open>Whether the wait blocks depends on the value that \<open>nStatus\<close> happens to hold.
  When its low seven bits are not all zero the options are 0: the wait blocks and the
  child is gone afterwards. When they are all zero the options are WNOHANG: the wait
  returns at once and a child that was alive is still there.\<close>

lemma Destroy_blocking_wait_reaps:
  "nStatus AND 127 \<noteq> 0 \<Longrightarrow> \<exists>c' evs. Destroy nStatus ppid c p = Some (c', NoChild, evs)"
  by (cases p) (auto simp: Destroy_def waitpid_def WIFEXITED_def)

lemma Destroy_nonblocking_wait_leaves_child:
  "nStatus AND 127 = 0 \<Longrightarrow> p = Running tp \<or> p = Stopped tp \<Longrightarrow>
     \<exists>c' evs. Destroy nStatus ppid c p = Some (c', Running True, evs)"
  by (auto simp: Destroy_def waitpid_def WIFEXITED_def WNOHANG_def)

text \<open>
  C6: \<open>Destroy\<close> is to block until the child has exited and to close the channel only
  afterwards. With \<open>nStatus = 0\<close> and a stopped child, the options of the wait are
  \<open>WIFEXITED(0) = 1\<close>, which is WNOHANG: the wait returns at once, and the mapping,
  the descriptor and the name are released while the child, with its SIGTERM pending,
  has not exited.
\<close>

theorem Destroy_wait_returns_at_once:
  "WIFEXITED 0 = WNOHANG \<and>
   Destroy 0 4000 ex_ctrl (Stopped False) =
     Some (ex_ctrl, Running True,
           [EvKill 4001 SIGTERM, EvKill 4001 SIGCONT, EvWaitpid 4001 WNOHANG,
            EvMunmap, EvClose 6, EvShmUnlink (ShmName 4000 ''kb7'')])"
  by (simp add: Destroy_def waitpid_def WIFEXITED_def WNOHANG_def ex_ctrl_def)

end
